theory Spec2Isabelle
  imports Main "HOL-Library.Sublist"
begin

section \<open>Data model\<close>

text \<open>
  The source file is \<^verbatim>\<open>modules/layers/src/geojson-layer/geojson-layer.ts\<close>, the
  composite layer \<^verbatim>\<open>GeoJsonLayer\<close>. Positions and feature properties are never
  inspected by the layer, so they are type parameters \<open>'p\<close> and \<open>'a\<close>.
\<close>

datatype 'p geometry =
    Point 'p
  | MultiPoint "'p list"
  | LineString "'p list"
  | MultiLineString "'p list list"
  | Polygon "'p list list"
  | MultiPolygon "'p list list list"
  | GeometryCollection "'p geometry list"
  | UnknownGeometry

text \<open>
  A feature of the flattened input sequence. Its source index is its position in that
  sequence, so it is not stored in the feature.
\<close>

record ('p, 'a) feature =
  geometry :: "'p geometry"
  properties :: 'a

text \<open>The three buckets, also the geometry kind of a record.\<close>

datatype bucket_kind = Points | Lines | Polygons

datatype 'p coordinates =
    PointCoords 'p
  | LineCoords "'p list"
  | PolygonCoords "'p list list"

text \<open>
  A geometry record of a bucket: the wrapped row that \<^verbatim>\<open>getSubLayerRow\<close> produces,
  whose \<^verbatim>\<open>__source.index\<close> is \<open>sourceIndex\<close> and whose \<^verbatim>\<open>__source.object\<close> is
  \<open>sourceObject\<close>.
\<close>

record ('p, 'a) row =
  sourceIndex :: nat
  subIndex :: nat
  geometryKind :: bucket_kind
  coordinates :: "'p coordinates"
  sourceObject :: "('p, 'a) feature"

text \<open>
  \<^verbatim>\<open>{startRow, endRow}\<close>: a half-open interval, of source indices when it is a change
  range and of bucket positions when it is an entry of a change report.
\<close>

record range =
  startRow :: nat
  endRow :: nat

type_synonym ('p, 'a) buckets = "bucket_kind \<rightharpoonup> ('p, 'a) row list"
type_synonym diffs = "bucket_kind \<rightharpoonup> range list"

text \<open>The input shapes of the object path.\<close>

datatype ('p, 'a) geojson =
    SingleFeature "('p, 'a) feature"
  | FeatureArray "('p, 'a) feature list"
  | FeatureCollection "('p, 'a) feature list"

text \<open>
  \<^verbatim>\<open>props.data\<close> as the layer reads it: \<open>keys\<close> are the property names the
  \<^verbatim>\<open>in\<close> operator sees, \<open>geojson\<close> is what the object path reads and
  \<open>points_globalFeatureIds\<close> is \<^verbatim>\<open>data.points.globalFeatureIds.value\<close>, read by
  picking. The declared type of the prop has no null, and strings and promises are
  resolved before the layer sees them, so the data is an object.
\<close>

record ('p, 'a) data_object =
  keys :: "string list"
  geojson :: "('p, 'a) geojson"
  points_globalFeatureIds :: "int list"

text \<open>
  \<^verbatim>\<open>changeFlags.dataChanged\<close>: \<^verbatim>\<open>false\<close>, a reason string, or a list of change
  ranges.
\<close>

datatype dataChanged =
    DataUnchanged
  | DataChangedReason string
  | DataChangedRanges "range list"

text \<open>JavaScript truthiness: the empty string is falsy, every array is truthy.\<close>

fun truthy :: "dataChanged \<Rightarrow> bool" where
  "truthy DataUnchanged = False"
| "truthy (DataChangedReason s) = (s \<noteq> [])"
| "truthy (DataChangedRanges rs) = True"

fun isArray :: "dataChanged \<Rightarrow> bool" where
  "isArray (DataChangedRanges rs) = True"
| "isArray _ = False"

text \<open>
  The sub-layer props are built by \<^verbatim>\<open>createLayerPropsFromFeatures\<close> and
  \<^verbatim>\<open>createLayerPropsFromBinary\<close>, which are not part of the source file: their
  results are kept as the uninterpreted applications.
\<close>

datatype ('p, 'a) layer_props =
    EmptyLayerProps
  | LayerPropsFromFeatures "('p, 'a) buckets" diffs
  | LayerPropsFromBinary "('p, 'a) data_object"

record ('p, 'a) state =
  layerProps :: "('p, 'a) layer_props"
  features :: "('p, 'a) buckets"
  featuresDiff :: diffs
  binary :: bool

text \<open>The helper functions of other modules that an update calls, in call order.\<close>

datatype call =
    Call_getGeojsonFeatures
  | Call_separateGeojsonFeatures "range option"
  | Call_replaceInRange bucket_kind range
  | Call_createLayerPropsFromFeatures
  | Call_createLayerPropsFromBinary

definition initializeState :: "('p, 'a) state" where
  "initializeState =
     \<lparr>layerProps = EmptyLayerProps, features = Map.empty, featuresDiff = Map.empty,
      binary = False\<rparr>"

section \<open>Helpers of other modules\<close>

text \<open>
  Modelled from the spec: the Geometry Normalizer (section 4.1), which lives in
  \<^verbatim>\<open>geojson.ts\<close>. \<open>geometry_parts\<close> lists the flat parts of a geometry in encounter
  order with their kind; \<open>normalize\<close> numbers them with \<open>subIndex\<close>.
\<close>

fun geometry_parts :: "'p geometry \<Rightarrow> (bucket_kind \<times> 'p coordinates) list" where
  "geometry_parts (Point p) = [(Points, PointCoords p)]"
| "geometry_parts (MultiPoint ps) = map (\<lambda>p. (Points, PointCoords p)) ps"
| "geometry_parts (LineString l) = [(Lines, LineCoords l)]"
| "geometry_parts (MultiLineString ls) = map (\<lambda>l. (Lines, LineCoords l)) ls"
| "geometry_parts (Polygon rings) = [(Polygons, PolygonCoords rings)]"
| "geometry_parts (MultiPolygon ps) = map (\<lambda>rings. (Polygons, PolygonCoords rings)) ps"
| "geometry_parts (GeometryCollection gs) = concat (map geometry_parts gs)"
| "geometry_parts UnknownGeometry = []"

definition normalize :: "nat \<Rightarrow> ('p, 'a) feature \<Rightarrow> ('p, 'a) row list" where
  "normalize i f =
     map (\<lambda>(j, (k, c)).
            \<lparr>sourceIndex = i, subIndex = j, geometryKind = k, coordinates = c,
             sourceObject = f\<rparr>)
         (enumerate 0 (geometry_parts (geometry f)))"

text \<open>
  Modelled from the spec: the Feature-Collection Flattener (section 4.2),
  \<^verbatim>\<open>getGeojsonFeatures\<close> of \<^verbatim>\<open>geojson.ts\<close>. The position in the result is the
  source index.
\<close>

fun getGeojsonFeatures :: "('p, 'a) geojson \<Rightarrow> ('p, 'a) feature list" where
  "getGeojsonFeatures (SingleFeature f) = [f]"
| "getGeojsonFeatures (FeatureArray fs) = fs"
| "getGeojsonFeatures (FeatureCollection fs) = fs"

definition in_range :: "range option \<Rightarrow> nat \<Rightarrow> bool" where
  "in_range r i = (case r of None \<Rightarrow> True | Some d \<Rightarrow> startRow d \<le> i \<and> i < endRow d)"

text \<open>
  Modelled from the spec: the Bucket Separator (section 4.3),
  \<^verbatim>\<open>separateGeojsonFeatures\<close> of \<^verbatim>\<open>geojson.ts\<close>. Without a range every feature is
  processed, with a range only the features whose source index lies in it; the records
  of each feature go to the bucket of their kind, in source order.
\<close>

definition separateGeojsonFeatures ::
  "('p, 'a) feature list \<Rightarrow> range option \<Rightarrow> bucket_kind \<Rightarrow> ('p, 'a) row list" where
  "separateGeojsonFeatures fs r k =
     filter (\<lambda>row. geometryKind row = k)
       (concat (map (\<lambda>(i, f). normalize i f)
                  (filter (\<lambda>(i, f). in_range r i) (enumerate 0 fs))))"

text \<open>
  Modelled from the spec: one splice of the Range-Diff Splicer (section 4.4, steps 1, 3
  and 4), \<^verbatim>\<open>replaceInRange\<close> of \<^verbatim>\<open>utils.ts\<close>. A sequential scan locates the span of
  the records of the range: it starts after the leading records below \<open>startRow\<close> and
  runs over the records below \<open>endRow\<close> that follow. The span is replaced and the report
  entry is the position of the span with the length of the replacement.
\<close>

definition replaceInRange ::
  "('p, 'a) row list \<Rightarrow> range \<Rightarrow> ('p, 'a) row list \<Rightarrow> ('p, 'a) row list \<times> range" where
  "replaceInRange data dataRange replace =
     (let replaceStart = length (takeWhile (\<lambda>d. sourceIndex d < startRow dataRange) data);
          replaceEnd = replaceStart +
            length (takeWhile (\<lambda>d. sourceIndex d < endRow dataRange) (drop replaceStart data))
      in (take replaceStart data @ replace @ drop replaceEnd data,
          \<lparr>startRow = replaceStart, endRow = replaceStart + length replace\<rparr>))"

section \<open>The layer\<close>

subsection \<open>updateState\<close>

text \<open>
  The loop body of \<^verbatim>\<open>_updateStateJSON\<close> for one change range. The accumulator holds,
  for every key of the previous \<^verbatim>\<open>state.features\<close>, the bucket \<^verbatim>\<open>newFeatures[key]\<close>
  and the report \<^verbatim>\<open>featuresDiff[key]\<close>, which the source creates together.
\<close>

type_synonym ('p, 'a) patched = "bucket_kind \<rightharpoonup> (('p, 'a) row list \<times> range list)"

definition applyRange ::
  "('p, 'a) feature list \<Rightarrow> ('p, 'a) patched \<Rightarrow> range \<Rightarrow> ('p, 'a) patched" where
  "applyRange fs acc dataRange =
     (let partialFeatures = separateGeojsonFeatures fs (Some dataRange)
      in (\<lambda>key. case acc key of
            None \<Rightarrow> None
          | Some (data, diff) \<Rightarrow>
              (let (data', entry) = replaceInRange data dataRange (partialFeatures key)
               in Some (data', diff @ [entry]))))"

definition applyRanges ::
  "('p, 'a) feature list \<Rightarrow> ('p, 'a) buckets \<Rightarrow> range list \<Rightarrow> ('p, 'a) patched" where
  "applyRanges fs oldFeatures dataRanges =
     foldl (applyRange fs) (\<lambda>key. map_option (\<lambda>data. (data, [])) (oldFeatures key)) dataRanges"

text \<open>The keys of an object in the order of \<^verbatim>\<open>for (const key in oldFeatures)\<close>.\<close>

definition keys_of :: "(bucket_kind \<rightharpoonup> 'v) \<Rightarrow> bucket_kind list" where
  "keys_of m = filter (\<lambda>k. m k \<noteq> None) [Points, Lines, Polygons]"

definition updateStateJSON_calls :: "('p, 'a) buckets \<Rightarrow> dataChanged \<Rightarrow> call list" where
  "updateStateJSON_calls oldFeatures dc =
     Call_getGeojsonFeatures #
     (case dc of
        DataChangedRanges dataRanges \<Rightarrow>
          concat (map (\<lambda>dataRange.
                    Call_separateGeojsonFeatures (Some dataRange) #
                    map (\<lambda>key. Call_replaceInRange key dataRange) (keys_of oldFeatures))
                  dataRanges)
      | _ \<Rightarrow> [Call_separateGeojsonFeatures None]) @
     [Call_createLayerPropsFromFeatures]"

definition updateStateJSON ::
  "('p, 'a) state \<Rightarrow> ('p, 'a) data_object \<Rightarrow> dataChanged \<Rightarrow> ('p, 'a) state \<times> call list" where
  "updateStateJSON st data dc =
     (let fs = getGeojsonFeatures (geojson data);
          (newFeatures, diff) =
            (case dc of
               DataChangedRanges dataRanges \<Rightarrow>
                 (let acc = applyRanges fs (features st) dataRanges
                  in (\<lambda>key. map_option fst (acc key), \<lambda>key. map_option snd (acc key)))
             | _ \<Rightarrow> (\<lambda>key. Some (separateGeojsonFeatures fs None key), Map.empty))
      in (st\<lparr>features := newFeatures, featuresDiff := diff,
              layerProps := LayerPropsFromFeatures newFeatures diff\<rparr>,
          updateStateJSON_calls (features st) dc))"

definition updateStateBinary ::
  "('p, 'a) state \<Rightarrow> ('p, 'a) data_object \<Rightarrow> ('p, 'a) state \<times> call list" where
  "updateStateBinary st data =
     (st\<lparr>layerProps := LayerPropsFromBinary data\<rparr>, [Call_createLayerPropsFromBinary])"

definition isBinary :: "('p, 'a) data_object \<Rightarrow> bool" where
  "isBinary data =
     (''points'' \<in> set (keys data) \<and> ''polygons'' \<in> set (keys data) \<and>
      ''lines'' \<in> set (keys data))"

definition updateState ::
  "('p, 'a) state \<Rightarrow> ('p, 'a) data_object \<Rightarrow> dataChanged \<Rightarrow> ('p, 'a) state \<times> call list" where
  "updateState st data dc =
     (if \<not> truthy dc then (st, [])
      else
        (let st' = st\<lparr>binary := isBinary data\<rparr>
         in if isBinary data then updateStateBinary st' data
            else updateStateJSON st' data dc))"

subsection \<open>getPickingInfo\<close>

text \<open>
  The picking info that \<^verbatim>\<open>super.getPickingInfo(params)\<close> returns (the parent class
  is not part of the source file, so its result is the input here). \<open>index\<close> is a
  JavaScript number or \<^verbatim>\<open>undefined\<close> (\<open>None\<close>); \<open>sourceLayer_id\<close> is
  \<^verbatim>\<open>sourceLayer!.id\<close>.
\<close>

record picking_info =
  index :: "int option"
  sourceLayer_id :: string
  featureType :: "string option"

definition FEATURE_TYPES :: "string list" where
  "FEATURE_TYPES = [''points'', ''linestrings'', ''polygons'']"

text \<open>
  \<^verbatim>\<open>value[index]\<close> on a typed array: an index outside the array reads
  \<^verbatim>\<open>undefined\<close>.
\<close>

definition typed_array_get :: "int list \<Rightarrow> int \<Rightarrow> int option" where
  "typed_array_get v i = (if 0 \<le> i \<and> nat i < length v then Some (v ! nat i) else None)"

text \<open>\<^verbatim>\<open>index >= 0\<close>, which is false for \<^verbatim>\<open>undefined\<close>.\<close>

definition nonneg :: "int option \<Rightarrow> bool" where
  "nonneg i = (case i of None \<Rightarrow> False | Some n \<Rightarrow> 0 \<le> n)"

definition getPickingInfo ::
  "string \<Rightarrow> ('p, 'a) state \<Rightarrow> ('p, 'a) data_object \<Rightarrow> picking_info \<Rightarrow> picking_info" where
  "getPickingInfo this_id st data info =
     (let info' = info\<lparr>featureType :=
            find (\<lambda>ft. prefix (this_id @ ''-'' @ ft @ ''-'') (sourceLayer_id info))
              FEATURE_TYPES\<rparr>
      in if nonneg (index info) \<and> prefix (this_id @ ''-points-text'') (sourceLayer_id info) \<and>
            binary st
         then info'\<lparr>index :=
                case index info of
                  None \<Rightarrow> None
                | Some i \<Rightarrow> typed_array_get (points_globalFeatureIds data) i\<rparr>
         else info')"

text \<open>
  The id that \<^verbatim>\<open>_renderLineLayers\<close> gives the sub-layer of the line strings. The id
  of a sub-layer as picking sees it is the id of the layer, a hyphen and this id, as in
  the prefixes that \<^verbatim>\<open>getPickingInfo\<close> and \<^verbatim>\<open>_updateAutoHighlight\<close> test.
\<close>

definition lineStringsLayerId :: string where
  "lineStringsLayerId = ''linestrings''"

subsection \<open>getSubLayerAccessor\<close>

text \<open>
  An accessor is a constant or a function of an object and the accessor info, of which
  the wrapper reads \<^verbatim>\<open>data\<close> and \<^verbatim>\<open>index\<close>.
\<close>

record 'd accessor_info =
  info_data :: 'd
  info_index :: int

datatype ('x, 'd, 'o) accessor =
    Constant 'o
  | Function "'x \<Rightarrow> 'd accessor_info \<Rightarrow> 'o"

text \<open>
  The result of \<^verbatim>\<open>getSubLayerAccessor\<close>: either whatever
  \<^verbatim>\<open>super.getSubLayerAccessor(accessor)\<close> returns (the parent class is not part of
  the source file), or the wrapper closure. One invocation of the wrapper yields the
  accessor's result and the arguments of its calls to
  \<^verbatim>\<open>binaryToFeatureForAccesor\<close>.
\<close>

datatype ('x, 'y, 'd, 'o) sub_layer_accessor =
    SuperAccessor "('x, 'd, 'o) accessor"
  | BinaryWrapper "'y \<Rightarrow> 'd accessor_info \<Rightarrow> 'o \<times> ('d \<times> int) list"

text \<open>
  \<open>binaryToFeatureForAccesor\<close> is imported from \<^verbatim>\<open>geojson-binary.ts\<close>, which is not
  part of the source file: it is a parameter.
\<close>

definition getSubLayerAccessor ::
  "('d \<Rightarrow> int \<Rightarrow> 'x) \<Rightarrow> ('p, 'a) state \<Rightarrow> ('x, 'd, 'o) accessor \<Rightarrow>
   ('x, 'y, 'd, 'o) sub_layer_accessor" where
  "getSubLayerAccessor binaryToFeatureForAccesor st acc =
     (case acc of
        Constant c \<Rightarrow> SuperAccessor acc
      | Function f \<Rightarrow>
          if \<not> binary st then SuperAccessor acc
          else BinaryWrapper (\<lambda>object info.
                 (f (binaryToFeatureForAccesor (info_data info) (info_index info)) info,
                  [(info_data info, info_index info)])))"

text \<open>
  A sub-layer calling its accessor once per object: the results in order and all calls
  to \<^verbatim>\<open>binaryToFeatureForAccesor\<close> made on the way.
\<close>

fun invokeAll ::
  "('y \<Rightarrow> 'd accessor_info \<Rightarrow> 'o \<times> ('d \<times> int) list) \<Rightarrow> ('y \<times> 'd accessor_info) list \<Rightarrow>
   'o list \<times> ('d \<times> int) list" where
  "invokeAll w [] = ([], [])"
| "invokeAll w ((object, info) # rest) =
     (let (out, calls) = w object info; (outs, calls') = invokeAll w rest
      in (out # outs, calls @ calls'))"

subsection \<open>_renderPointLayers\<close>

datatype js_error = TypeError

text \<open>\<^verbatim>\<open>pointType.split('+')\<close>.\<close>

fun split_on :: "char \<Rightarrow> string \<Rightarrow> string list" where
  "split_on c [] = [[]]"
| "split_on c (x # xs) =
     (if x = c then [] # split_on c xs
      else (case split_on c xs of
              [] \<Rightarrow> [[x]]
            | w # ws \<Rightarrow> (x # w) # ws))"

text \<open>
  \<^verbatim>\<open>new Set(...)\<close> and its iteration: the distinct elements in the order of their first
  insertion.
\<close>

definition set_add :: "'a list \<Rightarrow> 'a \<Rightarrow> 'a list" where
  "set_add s x = (if x \<in> set s then s else s @ [x])"

definition new_Set :: "'a list \<Rightarrow> 'a list" where
  "new_Set xs = foldl set_add [] xs"

text \<open>
  \<^verbatim>\<open>layerProps.points.data\<close>: the rows of the point bucket on the object path, an
  object with attributes (here their names) on the columnar path.
\<close>

datatype ('p, 'a) points_data =
    RowData "('p, 'a) row list"
  | BinaryData "string list"

text \<open>\<^verbatim>\<open>Array.prototype.findIndex\<close>: the first position that satisfies, or -1.\<close>

definition findIndex :: "('a \<Rightarrow> bool) \<Rightarrow> 'a list \<Rightarrow> int" where
  "findIndex P xs =
     (if \<exists>x\<in>set xs. P x then int (length (takeWhile (\<lambda>x. \<not> P x) xs)) else - 1)"

text \<open>
  What \<^verbatim>\<open>_renderPointLayers\<close> takes from other modules: the table \<^verbatim>\<open>POINT_LAYER\<close> of
  \<^verbatim>\<open>sub-layer-map.ts\<close> (a plain object, looked up by its own keys; \<open>'m\<close> is the type
  of its entries) and the methods \<^verbatim>\<open>shouldRenderSubLayer\<close> and \<^verbatim>\<open>getSubLayerClass\<close>
  of the parent class (\<open>None\<close> is a falsy result).
\<close>

record ('p, 'a, 'm, 'c) render_env =
  POINT_LAYER :: "string \<rightharpoonup> 'm"
  shouldRenderSubLayer :: "string \<Rightarrow> ('p, 'a) points_data option \<Rightarrow> bool"
  getSubLayerClass :: "string \<Rightarrow> 'm \<Rightarrow> 'c option"

text \<open>
  A created point sub-layer: its id, its class, the table entry whose props are
  forwarded, the highlighted index and the point props it is given.
\<close>

record ('p, 'a, 'm, 'c) sub_layer =
  sub_id :: string
  sub_class :: 'c
  sub_mapping :: 'm
  sub_highlightedObjectIndex :: "int option"
  pointsLayerProps :: "('p, 'a) points_data option"

text \<open>
  The remapping of \<^verbatim>\<open>highlightedObjectIndex\<close>; \<open>None\<close> is a value that
  \<^verbatim>\<open>Number.isFinite\<close> rejects. Reading \<^verbatim>\<open>.data\<close> of a missing
  \<^verbatim>\<open>layerProps.points\<close>, or calling \<^verbatim>\<open>findIndex\<close> on data that is no array, throws.
\<close>

definition remapHighlightedObjectIndex ::
  "bool \<Rightarrow> int option \<Rightarrow> ('p, 'a) points_data option \<Rightarrow> js_error + int option" where
  "remapHighlightedObjectIndex bin highlightedObjectIndex points =
     (case highlightedObjectIndex of
        None \<Rightarrow> Inr None
      | Some h \<Rightarrow>
          if bin then Inr (Some h)
          else (case points of
                  Some (RowData rows) \<Rightarrow>
                    Inr (Some (findIndex (\<lambda>d. int (sourceIndex d) = h) rows))
                | _ \<Rightarrow> Inl TypeError))"

text \<open>The loop body for one type: no layer, one layer, or an exception.\<close>

definition renderPointLayer ::
  "('p, 'a, 'm, 'c) render_env \<Rightarrow> bool \<Rightarrow> ('p, 'a) points_data option \<Rightarrow> int option \<Rightarrow>
   string \<Rightarrow> js_error + ('p, 'a, 'm, 'c) sub_layer option" where
  "renderPointLayer env bin points highlightedObjectIndex type =
     (let id = ''points-'' @ type
      in case POINT_LAYER env type of
           None \<Rightarrow> Inr None
         | Some PointLayerMapping \<Rightarrow>
             if \<not> shouldRenderSubLayer env id points then Inr None
             else (case getSubLayerClass env id PointLayerMapping of
                     None \<Rightarrow> Inr None
                   | Some PointsLayer \<Rightarrow>
                       if type = ''text'' \<and> bin then
                         (case points of
                            Some (BinaryData attributes) \<Rightarrow>
                              Inr (Some \<lparr>sub_id = id, sub_class = PointsLayer,
                                sub_mapping = PointLayerMapping,
                                sub_highlightedObjectIndex = highlightedObjectIndex,
                                pointsLayerProps = Some (BinaryData
                                  (filter (\<lambda>a. a \<noteq> ''instancePickingColors'') attributes))\<rparr>)
                          | _ \<Rightarrow> Inl TypeError)
                       else
                         Inr (Some \<lparr>sub_id = id, sub_class = PointsLayer,
                           sub_mapping = PointLayerMapping,
                           sub_highlightedObjectIndex = highlightedObjectIndex,
                           pointsLayerProps = points\<rparr>)))"

fun renderTypes ::
  "('p, 'a, 'm, 'c) render_env \<Rightarrow> bool \<Rightarrow> ('p, 'a) points_data option \<Rightarrow> int option \<Rightarrow>
   string list \<Rightarrow> ('p, 'a, 'm, 'c) sub_layer list \<Rightarrow>
   js_error + ('p, 'a, 'm, 'c) sub_layer list" where
  "renderTypes env bin points h [] pointLayers = Inr pointLayers"
| "renderTypes env bin points h (type # types) pointLayers =
     (case renderPointLayer env bin points h type of
        Inl e \<Rightarrow> Inl e
      | Inr None \<Rightarrow> renderTypes env bin points h types pointLayers
      | Inr (Some layer) \<Rightarrow> renderTypes env bin points h types (pointLayers @ [layer]))"

definition renderPointLayers ::
  "('p, 'a, 'm, 'c) render_env \<Rightarrow> string \<Rightarrow> int option \<Rightarrow> bool \<Rightarrow>
   ('p, 'a) points_data option \<Rightarrow> js_error + ('p, 'a, 'm, 'c) sub_layer list" where
  "renderPointLayers env pointType highlightedObjectIndex bin points =
     (case remapHighlightedObjectIndex bin highlightedObjectIndex points of
        Inl e \<Rightarrow> Inl e
      | Inr h \<Rightarrow> renderTypes env bin points h (new_Set (split_on CHR ''+'' pointType)) [])"

subsection \<open>_updateStateJSON on a store of array objects\<close>

text \<open>
  Whether an update keeps the array objects of \<^verbatim>\<open>state.features\<close> depends on which
  arrays are shared, so here the arrays live in a store: an address is a position in
  \<open>heap\<close>, a new array gets the next address, and \<^verbatim>\<open>state.features\<close> holds the
  address of each bucket.
\<close>

type_synonym addr = nat
type_synonym ('p, 'a) heap = "('p, 'a) row list list"

record ('p, 'a) store_state =
  heap :: "('p, 'a) heap"
  features_ref :: "bucket_kind \<rightharpoonup> addr"
  featuresDiff_s :: diffs

type_synonym patched_ref = "bucket_kind \<rightharpoonup> (addr \<times> range list)"

definition initial_store :: "('p, 'a) store_state" where
  "initial_store = \<lparr>heap = [], features_ref = Map.empty, featuresDiff_s = Map.empty\<rparr>"

text \<open>
  \<^verbatim>\<open>newFeatures[key] = oldFeatures[key].slice(); featuresDiff[key] = []\<close>: the copy is
  a new array object.
\<close>

definition sliceBucket ::
  "(bucket_kind \<rightharpoonup> addr) \<Rightarrow> ('p, 'a) heap \<times> patched_ref \<Rightarrow> bucket_kind \<Rightarrow>
   ('p, 'a) heap \<times> patched_ref" where
  "sliceBucket oldFeatures s key =
     (case s of (h, acc) \<Rightarrow>
        (case oldFeatures key of
           None \<Rightarrow> (h, acc)
         | Some p \<Rightarrow> (h @ [h ! p], acc(key \<mapsto> (length h, [])))))"

text \<open>
  \<^verbatim>\<open>featuresDiff[key].push(replaceInRange({data: newFeatures[key], ...}))\<close>: the
  splice writes the array at the address of \<^verbatim>\<open>newFeatures[key]\<close>.
\<close>

definition spliceBucket ::
  "range \<Rightarrow> (bucket_kind \<Rightarrow> ('p, 'a) row list) \<Rightarrow> ('p, 'a) heap \<times> patched_ref \<Rightarrow>
   bucket_kind \<Rightarrow> ('p, 'a) heap \<times> patched_ref" where
  "spliceBucket dataRange partialFeatures s key =
     (case s of (h, acc) \<Rightarrow>
        (case acc key of
           None \<Rightarrow> (h, acc)
         | Some (p, diff) \<Rightarrow>
             (let (data', entry) = replaceInRange (h ! p) dataRange (partialFeatures key)
              in (h[p := data'], acc(key \<mapsto> (p, diff @ [entry]))))))"

definition applyRange_store ::
  "('p, 'a) feature list \<Rightarrow> bucket_kind list \<Rightarrow> ('p, 'a) heap \<times> patched_ref \<Rightarrow> range \<Rightarrow>
   ('p, 'a) heap \<times> patched_ref" where
  "applyRange_store fs ks s dataRange =
     foldl (spliceBucket dataRange (separateGeojsonFeatures fs (Some dataRange))) s ks"

definition updateStateJSON_store ::
  "('p, 'a) store_state \<Rightarrow> ('p, 'a) data_object \<Rightarrow> dataChanged \<Rightarrow> ('p, 'a) store_state" where
  "updateStateJSON_store st data dc =
     (let fs = getGeojsonFeatures (geojson data)
      in case dc of
           DataChangedRanges dataRanges \<Rightarrow>
             (let oldFeatures = features_ref st;
                  sliced = foldl (sliceBucket oldFeatures) (heap st, Map.empty)
                             (keys_of oldFeatures);
                  (h, acc) = foldl (applyRange_store fs (keys_of oldFeatures)) sliced dataRanges
              in \<lparr>heap = h, features_ref = (\<lambda>key. map_option fst (acc key)),
                  featuresDiff_s = (\<lambda>key. map_option snd (acc key))\<rparr>)
         | _ \<Rightarrow>
             (let n = length (heap st)
              in \<lparr>heap = heap st @
                     map (separateGeojsonFeatures fs None) [Points, Lines, Polygons],
                  features_ref = [Points \<mapsto> n, Lines \<mapsto> n + 1, Polygons \<mapsto> n + 2],
                  featuresDiff_s = Map.empty\<rparr>))"

section \<open>Auxiliary notions of the proofs\<close>

text \<open>The records of one bucket that the features numbered from \<open>n\<close> on contribute.\<close>

definition rows_from ::
  "nat \<Rightarrow> ('p, 'a) feature list \<Rightarrow> bucket_kind \<Rightarrow> ('p, 'a) row list" where
  "rows_from n fs k =
     filter (\<lambda>row. geometryKind row = k)
       (concat (map (\<lambda>(i, f). normalize i f) (enumerate n fs)))"

text \<open>One splice of one bucket together with its report.\<close>

definition splice1 ::
  "range \<Rightarrow> ('p, 'a) row list \<Rightarrow> (('p, 'a) row list \<times> range list) option \<Rightarrow>
   (('p, 'a) row list \<times> range list) option" where
  "splice1 r repl v =
     (case v of
        None \<Rightarrow> None
      | Some (data, diff) \<Rightarrow>
          Some (fst (replaceInRange data r repl), diff @ [snd (replaceInRange data r repl)]))"

text \<open>Reading the arrays of a store-level accumulator.\<close>

definition read_patched :: "('p, 'a) heap \<Rightarrow> patched_ref \<Rightarrow> ('p, 'a) patched" where
  "read_patched h acc = (\<lambda>key. map_option (\<lambda>(p, diff). (h ! p, diff)) (acc key))"

text \<open>
  The addresses of an accumulator lie in the store at or above \<open>n\<close>, and no two keys
  share one.
\<close>

definition fresh_refs :: "nat \<Rightarrow> ('p, 'a) heap \<Rightarrow> patched_ref \<Rightarrow> bool" where
  "fresh_refs n h acc =
     ((\<forall>k p d. acc k = Some (p, d) \<longrightarrow> n \<le> p \<and> p < length h) \<and>
      (\<forall>k k' p d d'. acc k = Some (p, d) \<longrightarrow> acc k' = Some (p, d') \<longrightarrow> k = k'))"

section \<open>Concrete inputs\<close>

definition ex_point :: "nat \<Rightarrow> (nat, unit) feature" where
  "ex_point p = \<lparr>geometry = Point p, properties = ()\<rparr>"

definition ex_data :: "(nat, unit) feature list \<Rightarrow> (nat, unit) data_object" where
  "ex_data fs = \<lparr>keys = [], geojson = FeatureArray fs, points_globalFeatureIds = []\<rparr>"

definition ex_binary_data :: "(nat, unit) data_object" where
  "ex_binary_data =
     \<lparr>keys = [''points'', ''lines'', ''polygons''], geojson = FeatureArray [],
      points_globalFeatureIds = [5, 9]\<rparr>"

definition ex_range :: range where
  "ex_range = \<lparr>startRow = 0, endRow = 1\<rparr>"

definition ex_state :: "(nat, unit) state" where
  "ex_state =
     fst (updateState initializeState (ex_data [ex_point 0, ex_point 1])
            (DataChangedReason ''init''))"

definition ex_binary_state :: "(nat, unit) state" where
  "ex_binary_state =
     fst (updateState initializeState ex_binary_data (DataChangedReason ''init''))"

definition ex_store :: "(nat, unit) store_state" where
  "ex_store =
     updateStateJSON_store initial_store (ex_data [ex_point 0, ex_point 1])
       (DataChangedReason ''init'')"

definition ex_info :: "string \<Rightarrow> int \<Rightarrow> picking_info" where
  "ex_info sub i = \<lparr>index = Some i, sourceLayer_id = sub, featureType = None\<rparr>"

definition ex_env :: "(nat, unit, string, string) render_env" where
  "ex_env =
     \<lparr>POINT_LAYER = [''circle'' \<mapsto> ''ScatterplotLayer'', ''icon'' \<mapsto> ''IconLayer'',
                      ''text'' \<mapsto> ''TextLayer''],
      shouldRenderSubLayer = (\<lambda>id data. data \<noteq> None),
      getSubLayerClass = (\<lambda>id m. Some m)\<rparr>"

definition ex_accessor_info :: "int \<Rightarrow> string accessor_info" where
  "ex_accessor_info i = \<lparr>info_data = ''points'', info_index = i\<rparr>"

section \<open>Lemmas on the helpers\<close>

subsection \<open>Separation\<close>

lemma normalize_sourceIndex: "row \<in> set (normalize i f) \<Longrightarrow> sourceIndex row = i"
  by (auto simp: normalize_def)

lemma rows_from_append:
  "rows_from n (xs @ ys) k = rows_from n xs k @ rows_from (n + length xs) ys k"
  by (simp add: rows_from_def enumerate_append_eq)

lemma rows_from_bounds:
  "row \<in> set (rows_from n fs k) \<Longrightarrow> n \<le> sourceIndex row \<and> sourceIndex row < n + length fs"
  by (auto simp: rows_from_def in_set_enumerate_eq dest!: normalize_sourceIndex)

lemma separate_full: "separateGeojsonFeatures fs None k = rows_from 0 fs k"
  by (simp add: separateGeojsonFeatures_def rows_from_def in_range_def)

lemma filter_enumerate_all:
  "\<forall>i. n \<le> i \<and> i < n + length xs \<longrightarrow> P i \<Longrightarrow>
   filter (\<lambda>(i, f). P i) (enumerate n xs) = enumerate n xs"
  by (auto simp: filter_id_conv in_set_enumerate_eq)

lemma filter_enumerate_none:
  "\<forall>i. n \<le> i \<and> i < n + length xs \<longrightarrow> \<not> P i \<Longrightarrow>
   filter (\<lambda>(i, f). P i) (enumerate n xs) = []"
  by (auto simp: filter_empty_conv in_set_enumerate_eq)

lemma separate_range:
  assumes "length A = startRow r" "length A + length B = endRow r"
  shows "separateGeojsonFeatures (A @ B @ C) (Some r) k = rows_from (length A) B k"
proof -
  let ?P = "\<lambda>i. in_range (Some r) i"
  have a: "filter (\<lambda>(i, f). ?P i) (enumerate 0 A) = []"
    using assms by (intro filter_enumerate_none) (auto simp: in_range_def)
  have b: "filter (\<lambda>(i, f). ?P i) (enumerate (length A) B) = enumerate (length A) B"
    using assms by (intro filter_enumerate_all) (auto simp: in_range_def)
  have c: "filter (\<lambda>(i, f). ?P i) (enumerate (length A + length B) C) = []"
    using assms by (intro filter_enumerate_none) (auto simp: in_range_def)
  show ?thesis
    by (simp add: separateGeojsonFeatures_def rows_from_def enumerate_append_eq a b c)
qed

subsection \<open>Splicing\<close>

lemma takeWhile_none: "\<forall>x\<in>set xs. \<not> P x \<Longrightarrow> takeWhile P xs = []"
  by (cases xs) auto

lemma replaceInRange_segments:
  assumes X: "\<forall>d\<in>set X. sourceIndex d < startRow r"
    and Y: "\<forall>d\<in>set Y. startRow r \<le> sourceIndex d \<and> sourceIndex d < endRow r"
    and Z: "\<forall>d\<in>set Z. endRow r \<le> sourceIndex d"
    and se: "startRow r \<le> endRow r"
  shows "replaceInRange (X @ Y @ Z) r R =
           (X @ R @ Z, \<lparr>startRow = length X, endRow = length X + length R\<rparr>)"
proof -
  have "\<forall>d\<in>set (Y @ Z). \<not> sourceIndex d < startRow r"
    using Y Z se by auto
  then have s: "takeWhile (\<lambda>d. sourceIndex d < startRow r) (X @ Y @ Z) = X"
    using X by (simp add: takeWhile_none del: append_assoc set_append)
  have "\<forall>d\<in>set Z. \<not> sourceIndex d < endRow r"
    using Z by auto
  then have e: "takeWhile (\<lambda>d. sourceIndex d < endRow r) (Y @ Z) = Y"
    using Y by (simp add: takeWhile_none)
  show ?thesis
    by (simp add: replaceInRange_def Let_def s e)
qed

lemma replaceInRange_entry:
  "snd (replaceInRange data r repl) =
     \<lparr>startRow = length (takeWhile (\<lambda>d. sourceIndex d < startRow r) data),
      endRow = length (takeWhile (\<lambda>d. sourceIndex d < startRow r) data) + length repl\<rparr>"
  by (simp add: replaceInRange_def Let_def)

lemma applyRange_splice1:
  "applyRange fs acc r = (\<lambda>k. splice1 r (separateGeojsonFeatures fs (Some r) k) (acc k))"
  by (auto simp: applyRange_def splice1_def Let_def fun_eq_iff case_prod_beta split: option.splits)

lemma applyRanges_snoc:
  "applyRanges fs old (rs @ [r]) = applyRange fs (applyRanges fs old rs) r"
  by (simp add: applyRanges_def)

lemma applyRanges_Some:
  "old k = Some b \<Longrightarrow> \<exists>b' ds. applyRanges fs old rs k = Some (b', ds) \<and> length ds = length rs"
proof (induction rs rule: rev_induct)
  case Nil
  then show ?case by (simp add: applyRanges_def)
next
  case (snoc r rs)
  then obtain b' ds where "applyRanges fs old rs k = Some (b', ds)" "length ds = length rs"
    by blast
  then show ?case
    by (simp add: applyRanges_snoc applyRange_def case_prod_beta Let_def)
qed

lemma keys_of_distinct: "distinct (keys_of m)"
  by (simp add: keys_of_def)

lemma keys_of_set: "k \<in> set (keys_of m) \<longleftrightarrow> m k \<noteq> None"
  by (cases k) (auto simp: keys_of_def)

subsection \<open>updateState\<close>

lemma updateState_full_features:
  assumes "\<not> isBinary data" "truthy dc" "\<not> isArray dc"
  shows "features (fst (updateState st data dc)) =
           (\<lambda>k. Some (separateGeojsonFeatures (getGeojsonFeatures (geojson data)) None k))"
  using assms by (cases dc) (simp_all add: updateState_def updateStateJSON_def Let_def)

lemma updateState_ranges_features:
  assumes "\<not> isBinary data"
  shows "features (fst (updateState st data (DataChangedRanges rs))) k =
           map_option fst (applyRanges (getGeojsonFeatures (geojson data)) (features st) rs k)"
  using assms by (simp add: updateState_def updateStateJSON_def Let_def)

lemma updateState_ranges_featuresDiff:
  assumes "\<not> isBinary data"
  shows "featuresDiff (fst (updateState st data (DataChangedRanges rs))) k =
           map_option snd (applyRanges (getGeojsonFeatures (geojson data)) (features st) rs k)"
  using assms by (simp add: updateState_def updateStateJSON_def Let_def)

lemma updateStateJSON_calls_props:
  "Call_getGeojsonFeatures \<in> set (updateStateJSON_calls old dc) \<and>
   Call_createLayerPropsFromBinary \<notin> set (updateStateJSON_calls old dc)"
  by (cases dc) (auto simp: updateStateJSON_calls_def)

lemma getSubLayerAccessor_object_path:
  "\<not> binary st \<Longrightarrow> getSubLayerAccessor b2f st acc = SuperAccessor acc"
  by (cases acc) (simp_all add: getSubLayerAccessor_def)

lemma invokeAll_wrapper:
  "invokeAll (\<lambda>object info. (g info, [c info])) invs =
     (map (\<lambda>(object, info). g info) invs, map (\<lambda>(object, info). c info) invs)"
  by (induction invs) (auto simp: case_prod_beta)

lemma getPickingInfo_featureType:
  "featureType (getPickingInfo this_id st data info) =
     (if prefix (this_id @ ''-points-'') (sourceLayer_id info) then Some ''points''
      else if prefix (this_id @ ''-linestrings-'') (sourceLayer_id info)
        then Some ''linestrings''
      else if prefix (this_id @ ''-polygons-'') (sourceLayer_id info) then Some ''polygons''
      else None)"
  by (simp add: getPickingInfo_def Let_def FEATURE_TYPES_def)

subsection \<open>The store\<close>

lemma spliceBucket_None:
  "acc key = None \<Longrightarrow> spliceBucket r part (h, acc) key = (h, acc)"
  by (simp add: spliceBucket_def)

lemma spliceBucket_Some:
  "acc key = Some (p, d) \<Longrightarrow>
   spliceBucket r part (h, acc) key =
     (h[p := fst (replaceInRange (h ! p) r (part key))],
      acc(key \<mapsto> (p, d @ [snd (replaceInRange (h ! p) r (part key))])))"
  by (simp add: spliceBucket_def case_prod_beta Let_def)

lemma fresh_refs_update:
  assumes "fresh_refs n h acc" "acc key = Some (p, d)"
  shows "fresh_refs n (h[p := x]) (acc(key \<mapsto> (p, d')))"
proof -
  have old: "\<exists>e'. acc k = Some (q, e')" if "(acc(key \<mapsto> (p, d'))) k = Some (q, e)" for k q e
    using that assms(2) by (cases "k = key") auto
  have 1: "n \<le> q \<and> q < length (h[p := x])" if "(acc(key \<mapsto> (p, d'))) k = Some (q, e)" for k q e
    using old [OF that] assms(1) by (auto simp: fresh_refs_def)
  have 2: "k = k'"
    if "(acc(key \<mapsto> (p, d'))) k = Some (q, e)" "(acc(key \<mapsto> (p, d'))) k' = Some (q, e')"
    for k k' q e e'
    using old [OF that(1)] old [OF that(2)] assms(1) unfolding fresh_refs_def by blast
  show ?thesis
    unfolding fresh_refs_def using 1 2 by blast
qed

lemma read_patched_update:
  assumes "fresh_refs n h acc" "acc key = Some (p, d)"
  shows "read_patched (h[p := x]) (acc(key \<mapsto> (p, d'))) = (read_patched h acc)(key \<mapsto> (x, d'))"
proof
  fix k
  have plt: "p < length h" using assms by (auto simp: fresh_refs_def)
  show "read_patched (h[p := x]) (acc(key \<mapsto> (p, d'))) k = ((read_patched h acc)(key \<mapsto> (x, d'))) k"
  proof (cases "k = key")
    case True
    then show ?thesis using plt by (simp add: read_patched_def)
  next
    case False
    have "\<And>q e. acc k = Some (q, e) \<Longrightarrow> q \<noteq> p"
      using assms False unfolding fresh_refs_def by blast
    then show ?thesis using False
      by (cases "acc k") (auto simp: read_patched_def)
  qed
qed

lemma spliceBucket_step:
  assumes "fresh_refs n h acc" and "spliceBucket r part (h, acc) key = (h', acc')"
  shows "fresh_refs n h' acc'"
    and "length h' = length h"
    and "take n h' = take n h"
    and "(\<lambda>k. map_option fst (acc' k)) = (\<lambda>k. map_option fst (acc k))"
    and "read_patched h' acc' = (read_patched h acc)(key := splice1 r (part key) (read_patched h acc key))"
proof -
  have "fresh_refs n h' acc' \<and> length h' = length h \<and> take n h' = take n h \<and>
      (\<lambda>k. map_option fst (acc' k)) = (\<lambda>k. map_option fst (acc k)) \<and>
      read_patched h' acc' = (read_patched h acc)(key := splice1 r (part key) (read_patched h acc key))"
  proof (cases "acc key")
    case None
    then have "h' = h" "acc' = acc"
      using assms(2) by (simp_all add: spliceBucket_None)
    moreover have "read_patched h acc key = None"
      using None by (simp add: read_patched_def)
    moreover have "(read_patched h acc)(key := None) = read_patched h acc"
      using \<open>read_patched h acc key = None\<close> by (metis fun_upd_triv)
    ultimately show ?thesis
      using assms(1) by (simp add: splice1_def)
  next
    case (Some pd)
    obtain p d where pd: "acc key = Some (p, d)" using Some by (cases pd) auto
    let ?x = "fst (replaceInRange (h ! p) r (part key))"
    let ?d = "d @ [snd (replaceInRange (h ! p) r (part key))]"
    have h': "h' = h[p := ?x]" and acc': "acc' = acc(key \<mapsto> (p, ?d))"
      using assms(2) spliceBucket_Some [of acc key p d r part h] pd by simp_all
    have np: "n \<le> p" using assms(1) pd by (auto simp: fresh_refs_def)
    have rk: "read_patched h acc key = Some (h ! p, d)"
      using pd by (simp add: read_patched_def)
    have 1: "fresh_refs n h' acc'"
      unfolding h' acc' by (rule fresh_refs_update [OF assms(1) pd])
    have 2: "length h' = length h" by (simp add: h')
    have 3: "take n h' = take n h" using np by (simp add: h')
    have 4: "(\<lambda>k. map_option fst (acc' k)) = (\<lambda>k. map_option fst (acc k))"
      using pd by (auto simp: acc' fun_eq_iff)
    have 5: "read_patched h' acc' =
        (read_patched h acc)(key := splice1 r (part key) (read_patched h acc key))"
      unfolding h' acc' by (simp add: read_patched_update [OF assms(1) pd] rk splice1_def)
    show ?thesis using 1 2 3 4 5 by simp
  qed
  then show "fresh_refs n h' acc'"
    and "length h' = length h"
    and "take n h' = take n h"
    and "(\<lambda>k. map_option fst (acc' k)) = (\<lambda>k. map_option fst (acc k))"
    and "read_patched h' acc' = (read_patched h acc)(key := splice1 r (part key) (read_patched h acc key))"
    by simp_all
qed

lemma foldl_spliceBucket:
  assumes "fresh_refs n h acc" "distinct ks"
    and "foldl (spliceBucket r part) (h, acc) ks = (h', acc')"
  shows "fresh_refs n h' acc' \<and> length h' = length h \<and> take n h' = take n h \<and>
      (\<lambda>k. map_option fst (acc' k)) = (\<lambda>k. map_option fst (acc k)) \<and>
      read_patched h' acc' =
        (\<lambda>k. if k \<in> set ks then splice1 r (part k) (read_patched h acc k)
              else read_patched h acc k)"
  using assms
proof (induction ks arbitrary: h acc)
  case Nil
  then show ?case by simp
next
  case (Cons key ks)
  obtain h1 acc1 where s1: "spliceBucket r part (h, acc) key = (h1, acc1)"
    by (cases "spliceBucket r part (h, acc) key")
  note st = spliceBucket_step [OF Cons.prems(1) s1]
  have rest: "foldl (spliceBucket r part) (h1, acc1) ks = (h', acc')"
    using Cons.prems(3) s1 by simp
  have d: "distinct ks" and kn: "key \<notin> set ks"
    using Cons.prems(2) by simp_all
  note ih = Cons.IH [OF st(1) d rest]
  have "read_patched h' acc' =
      (\<lambda>k. if k \<in> set (key # ks) then splice1 r (part k) (read_patched h acc k)
            else read_patched h acc k)"
    using ih kn by (auto simp: st(5) fun_eq_iff)
  then show ?case
    using ih st(2,3,4) by simp
qed

lemma read_patched_dom: "read_patched h acc k = None \<longleftrightarrow> acc k = None"
  by (simp add: read_patched_def)

lemma applyRange_store_step:
  assumes "fresh_refs n h acc" "distinct ks" "\<forall>k. acc k \<noteq> None \<longrightarrow> k \<in> set ks"
    and "applyRange_store fs ks (h, acc) r = (h', acc')"
  shows "fresh_refs n h' acc' \<and> length h' = length h \<and> take n h' = take n h \<and>
      (\<lambda>k. map_option fst (acc' k)) = (\<lambda>k. map_option fst (acc k)) \<and>
      read_patched h' acc' = applyRange fs (read_patched h acc) r"
proof -
  note f = foldl_spliceBucket [OF assms(1,2) assms(4) [unfolded applyRange_store_def]]
  have "read_patched h' acc' k = applyRange fs (read_patched h acc) r k" for k
  proof (cases "k \<in> set ks")
    case True
    then show ?thesis using f by (simp add: applyRange_splice1)
  next
    case False
    then have "acc k = None"
      using assms(3) by blast
    then have "read_patched h acc k = None"
      by (simp add: read_patched_dom)
    then show ?thesis using f False by (simp add: applyRange_splice1 splice1_def)
  qed
  then show ?thesis using f by (simp add: fun_eq_iff)
qed

lemma foldl_applyRange_store:
  assumes "fresh_refs n h acc" "distinct ks" "\<forall>k. acc k \<noteq> None \<longrightarrow> k \<in> set ks"
    and "foldl (applyRange_store fs ks) (h, acc) rs = (h', acc')"
  shows "fresh_refs n h' acc' \<and> length h' = length h \<and> take n h' = take n h \<and>
      (\<lambda>k. map_option fst (acc' k)) = (\<lambda>k. map_option fst (acc k)) \<and>
      read_patched h' acc' = foldl (applyRange fs) (read_patched h acc) rs"
  using assms
proof (induction rs arbitrary: h acc)
  case Nil
  then show ?case by simp
next
  case (Cons r rs)
  obtain h1 acc1 where s1: "applyRange_store fs ks (h, acc) r = (h1, acc1)"
    by (cases "applyRange_store fs ks (h, acc) r")
  note st = applyRange_store_step [OF Cons.prems(1,2,3) s1]
  have dom1: "\<forall>k. acc1 k \<noteq> None \<longrightarrow> k \<in> set ks"
  proof (intro allI impI)
    fix k assume "acc1 k \<noteq> None"
    then have "map_option fst (acc1 k) \<noteq> None" by simp
    then have "map_option fst (acc k) \<noteq> None" using st by (metis)
    then show "k \<in> set ks" using Cons.prems(3) by simp
  qed
  have rest: "foldl (applyRange_store fs ks) (h1, acc1) rs = (h', acc')"
    using Cons.prems(4) s1 by simp
  have st1: "fresh_refs n h1 acc1" using st by simp
  note ih = Cons.IH [OF st1 Cons.prems(2) dom1 rest]
  show ?case using ih st by simp
qed

lemma sliceBucket_step:
  assumes "fresh_refs n h acc" "acc key = None" "n \<le> length h"
    and "sliceBucket old (h, acc) key = (h', acc')"
  shows "fresh_refs n h' acc' \<and> n \<le> length h' \<and> take (length h) h' = h \<and>
      (\<forall>k. acc' k = (if k = key then map_option (\<lambda>p. (length h, [])) (old key) else acc k))"
proof (cases "old key")
  case None
  then have "h' = h" "acc' = acc" using assms(4) by (simp_all add: sliceBucket_def)
  then show ?thesis using assms None by simp
next
  case (Some p)
  then have h': "h' = h @ [h ! p]" and acc': "acc' = acc(key \<mapsto> (length h, []))"
    using assms(4) by (simp_all add: sliceBucket_def)
  have "fresh_refs n h' acc'"
    unfolding fresh_refs_def h' acc'
    using assms(1,2,3) unfolding fresh_refs_def
    by (auto split: if_splits) (metis less_SucI nat_neq_iff)+
  then show ?thesis using assms(3) Some by (simp add: h' acc')
qed


lemma foldl_sliceBucket:
  assumes "fresh_refs n h acc" "n \<le> length h" "distinct ks" "\<forall>k\<in>set ks. acc k = None"
    and "\<forall>k p. old k = Some p \<longrightarrow> p < n"
    and "foldl (sliceBucket old) (h, acc) ks = (h', acc')"
  shows "fresh_refs n h' acc' \<and> take (length h) h' = h \<and>
      (\<forall>k. map_option (\<lambda>(p, d). (h' ! p, d)) (acc' k) =
           (if k \<in> set ks then map_option (\<lambda>p. (h ! p, [])) (old k)
            else map_option (\<lambda>(p, d). (h ! p, d)) (acc k))) \<and>
      (\<forall>k. acc' k \<noteq> None \<longrightarrow> acc k \<noteq> None \<or> (k \<in> set ks \<and> old k \<noteq> None))"
  using assms
proof (induction ks arbitrary: h acc)
  case Nil
  then show ?case by simp
next
  case (Cons key ks)
  obtain h1 acc1 where s1: "sliceBucket old (h, acc) key = (h1, acc1)"
    by (cases "sliceBucket old (h, acc) key")
  have kn: "acc key = None" using Cons.prems(4) by simp
  note st = sliceBucket_step [OF Cons.prems(1) kn Cons.prems(2) s1]
  have f1: "fresh_refs n h1 acc1" and n1: "n \<le> length h1" and t1: "take (length h) h1 = h"
    and a1: "\<And>k. acc1 k = (if k = key then map_option (\<lambda>p. (length h, [])) (old key) else acc k)"
    using st by simp_all
  have d: "distinct ks" and kks: "key \<notin> set ks" using Cons.prems(3) by simp_all
  have none1: "\<forall>k\<in>set ks. acc1 k = None"
    using Cons.prems(4) kks by (auto simp: a1)
  have rest: "foldl (sliceBucket old) (h1, acc1) ks = (h', acc')"
    using Cons.prems(6) s1 by simp
  note ih = Cons.IH [OF f1 n1 d none1 Cons.prems(5) rest]
  have len: "length h \<le> length h1"
    using arg_cong [OF t1, of length] by simp
  have nth1: "h1 ! q = h ! q" if "q < length h" for q
    using t1 that by (metis nth_take)
  have tk: "take (length h) h' = h"
  proof -
    have "take (length h) h' = take (length h) (take (length h1) h')"
      using len by (simp add: min_def)
    then show ?thesis using ih t1 by simp
  qed
  have h1key: "h1 ! length h = h ! p" if "old key = Some p" for p
    using s1 that by (auto simp: sliceBucket_def)
  have rd: "map_option (\<lambda>(p, d). (h' ! p, d)) (acc' k) =
           (if k \<in> set (key # ks) then map_option (\<lambda>p. (h ! p, [])) (old k)
            else map_option (\<lambda>(p, d). (h ! p, d)) (acc k))" for k
  proof (cases "k \<in> set ks")
    case True
    have "map_option (\<lambda>p. (h1 ! p, [])) (old k) = map_option (\<lambda>p. (h ! p, [])) (old k)"
    proof (cases "old k")
      case None
      then show ?thesis by simp
    next
      case (Some a)
      then have "a < length h" using Cons.prems(2,5) by (meson less_le_trans)
      then show ?thesis using Some nth1 by simp
    qed
    then show ?thesis using ih True by simp
  next
    case False
    show ?thesis
    proof (cases "k = key")
      case True
      then show ?thesis using ih False kks
        by (cases "old key") (auto simp: a1 h1key)
    next
      case kk: False
      have "map_option (\<lambda>(p, d). (h1 ! p, d)) (acc k) = map_option (\<lambda>(p, d). (h ! p, d)) (acc k)"
      proof (cases "acc k")
        case None
        then show ?thesis by simp
      next
        case (Some pd)
        then have "fst pd < length h"
          using Cons.prems(1) by (cases pd) (auto simp: fresh_refs_def)
        then show ?thesis using Some nth1 by (cases pd) auto
      qed
      then show ?thesis using ih False kk by (simp add: a1)
    qed
  qed
  have dm: "acc' k \<noteq> None \<longrightarrow> acc k \<noteq> None \<or> (k \<in> set (key # ks) \<and> old k \<noteq> None)" for k
  proof
    assume "acc' k \<noteq> None"
    then have c: "acc1 k \<noteq> None \<or> (k \<in> set ks \<and> old k \<noteq> None)"
      using ih by blast
    have "acc1 k \<noteq> None \<Longrightarrow> acc k \<noteq> None \<or> (k = key \<and> old k \<noteq> None)"
      by (cases "k = key") (auto simp: a1)
    then show "acc k \<noteq> None \<or> (k \<in> set (key # ks) \<and> old k \<noteq> None)"
      using c by auto
  qed
  show ?case using ih tk rd dm by blast
qed

subsection \<open>Point sub-layers\<close>

lemma foldl_set_add:
  "distinct s \<Longrightarrow> distinct (foldl set_add s xs) \<and> set (foldl set_add s xs) = set s \<union> set xs"
  by (induction xs arbitrary: s) (auto simp: set_add_def)

lemma new_Set_distinct: "distinct (new_Set xs)"
  using foldl_set_add [of "[]" xs] by (simp add: new_Set_def)

lemma new_Set_set: "set (new_Set xs) = set xs"
  using foldl_set_add [of "[]" xs] by (simp add: new_Set_def)

lemma renderPointLayer_unknown:
  "POINT_LAYER env type = None \<Longrightarrow> renderPointLayer env bin points h type = Inr None"
  by (simp add: renderPointLayer_def)

lemma renderPointLayer_id:
  "renderPointLayer env bin points h type = Inr (Some layer) \<Longrightarrow>
   sub_id layer = ''points-'' @ type \<and> POINT_LAYER env type \<noteq> None"
  by (auto simp: renderPointLayer_def Let_def
      split: option.splits if_splits points_data.splits)

lemma renderTypes_filter:
  "renderTypes env bin points h (filter (\<lambda>t. POINT_LAYER env t \<noteq> None) types) acc =
   renderTypes env bin points h types acc"
  by (induction types arbitrary: acc)
    (auto simp: renderPointLayer_unknown split: sum.splits option.splits)

lemma renderTypes_ids:
  assumes "renderTypes env bin points h types acc = Inr layers" "distinct types"
  shows "\<exists>ts. map sub_id layers = map sub_id acc @ map (\<lambda>t. ''points-'' @ t) ts \<and>
      distinct ts \<and> set ts \<subseteq> set types \<inter> dom (POINT_LAYER env)"
  using assms
proof (induction types arbitrary: acc)
  case Nil
  then show ?case by auto
next
  case (Cons type types)
  show ?case
  proof (cases "renderPointLayer env bin points h type")
    case (Inl e)
    then show ?thesis using Cons.prems by simp
  next
    case (Inr res)
    show ?thesis
    proof (cases res)
      case None
      then have r: "renderTypes env bin points h types acc = Inr layers"
        using Cons.prems Inr by simp
      have d: "distinct types" using Cons.prems(2) by simp
      obtain ts where "map sub_id layers = map sub_id acc @ map (\<lambda>t. ''points-'' @ t) ts"
        "distinct ts" "set ts \<subseteq> set types \<inter> dom (POINT_LAYER env)"
        using Cons.IH [OF r d] by blast
      then show ?thesis by auto
    next
      case (Some layer)
      then have r: "renderTypes env bin points h types (acc @ [layer]) = Inr layers"
        using Cons.prems Inr by simp
      have d: "distinct types" using Cons.prems(2) by simp
      obtain ts where ts: "map sub_id layers = map sub_id (acc @ [layer]) @ map (\<lambda>t. ''points-'' @ t) ts"
        "distinct ts" "set ts \<subseteq> set types \<inter> dom (POINT_LAYER env)"
        using Cons.IH [OF r d] by blast
      have id: "sub_id layer = ''points-'' @ type" and known: "POINT_LAYER env type \<noteq> None"
        using renderPointLayer_id Inr Some by blast+
      have "map sub_id layers = map sub_id acc @ map (\<lambda>t. ''points-'' @ t) (type # ts)"
        using ts(1) id by simp
      moreover have "distinct (type # ts)"
        using ts(2,3) Cons.prems(2) by auto
      moreover have "set (type # ts) \<subseteq> set (type # types) \<inter> dom (POINT_LAYER env)"
        using ts(3) known by auto
      ultimately show ?thesis by blast
    qed
  qed
qed

section \<open>The claims\<close>

subsection \<open>C1: a partial update against a full rebuild\<close>

text \<open>
  C1 as stated fails: the collection \<open>[p0, p1]\<close> is rebuilt in full, then the range
  \<open>[0, 1)\<close> is replaced by no feature at all, which leaves \<open>[p1]\<close>. The partial update
  keeps the old record of source index 1 and puts the record of the new feature 0 in
  front of it, so the point bucket has two records where the full rebuild has one.
\<close>

theorem partial_update_differs_when_length_changes:
  "features (fst (updateState ex_state (ex_data [ex_point 1]) (DataChangedRanges [ex_range])))
     Points
   \<noteq> Some (separateGeojsonFeatures [ex_point 1] None Points)"
  by (simp add: ex_state_def ex_range_def updateState_def updateStateJSON_def isBinary_def
      ex_data_def ex_point_def initializeState_def applyRanges_def applyRange_def
      separateGeojsonFeatures_def normalize_def in_range_def replaceInRange_def Let_def
      enumerate_eq_zip)

text \<open>
  C1 (amended): when the features of the range \<open>[a, b)\<close> of a collection are replaced by
  as many features (\<open>b - a\<close> of them), the update with that range as
  \<^verbatim>\<open>changeFlags.dataChanged\<close>, run on the state of a full rebuild of the previous
  collection, yields in every bucket what \<open>separateGeojsonFeatures\<close> yields over the
  whole new collection.
\<close>

theorem partial_update_equals_full_rebuild:
  assumes ab: "a \<le> b" and bn: "b \<le> length fs" and len: "length repl = b - a"
    and old: "getGeojsonFeatures (geojson data) = fs"
    and new: "getGeojsonFeatures (geojson data') = take a fs @ repl @ drop b fs"
    and nb: "\<not> isBinary data" "\<not> isBinary data'"
    and full: "truthy full" "\<not> isArray full"
  shows "features (fst (updateState (fst (updateState st data full)) data'
                          (DataChangedRanges [\<lparr>startRow = a, endRow = b\<rparr>]))) =
         (\<lambda>k. Some (separateGeojsonFeatures (take a fs @ repl @ drop b fs) None k))"
proof
  fix k
  let ?r = "\<lparr>startRow = a, endRow = b\<rparr>"
  let ?A = "take a fs" and ?B = "take (b - a) (drop a fs)" and ?C = "drop b fs"
  have split: "fs = ?A @ ?B @ ?C"
    using ab by (metis append_take_drop_id drop_drop le_add_diff_inverse2)
  have lA: "length ?A = a" and lB: "length ?B = b - a"
    using ab bn by auto
  have oldb: "separateGeojsonFeatures fs None k =
      rows_from 0 ?A k @ rows_from a ?B k @ rows_from b ?C k"
    apply (subst split)
    using ab lA lB by (simp only: separate_full rows_from_append) simp
  have part: "separateGeojsonFeatures (?A @ repl @ ?C) (Some ?r) k = rows_from a repl k"
    using separate_range [of ?A ?r repl ?C k] lA len ab by simp
  have newb: "separateGeojsonFeatures (?A @ repl @ ?C) None k =
      rows_from 0 ?A k @ rows_from a repl k @ rows_from b ?C k"
    using ab lA len by (simp only: separate_full rows_from_append) simp
  have X: "\<forall>d\<in>set (rows_from 0 ?A k). sourceIndex d < startRow ?r"
    using lA by (auto dest!: rows_from_bounds)
  have Y: "\<forall>d\<in>set (rows_from a ?B k).
      startRow ?r \<le> sourceIndex d \<and> sourceIndex d < endRow ?r"
    using lB ab by (auto dest!: rows_from_bounds)
  have Z: "\<forall>d\<in>set (rows_from b ?C k). endRow ?r \<le> sourceIndex d"
    by (auto dest!: rows_from_bounds)
  have spl: "fst (replaceInRange (separateGeojsonFeatures fs None k) ?r (rows_from a repl k)) =
      separateGeojsonFeatures (?A @ repl @ ?C) None k"
    unfolding oldb newb
    using replaceInRange_segments [OF X Y Z, of "rows_from a repl k"] ab by simp
  show "features (fst (updateState (fst (updateState st data full)) data'
                          (DataChangedRanges [?r]))) k =
         Some (separateGeojsonFeatures (take a fs @ repl @ drop b fs) None k)"
    using spl part
    by (simp add: updateState_ranges_features [OF nb(2)]
        updateState_full_features [OF nb(1) full]
        old new applyRanges_def applyRange_def Let_def case_prod_beta)
qed

text \<open>
  The amended C1 at a concrete input: feature 0 of \<open>[p0, p1]\<close> is replaced by \<open>p7\<close>.
\<close>

theorem partial_update_equals_full_rebuild_witness:
  "features (fst (updateState ex_state (ex_data [ex_point 7, ex_point 1])
                    (DataChangedRanges [ex_range]))) =
   (\<lambda>k. Some (separateGeojsonFeatures [ex_point 7, ex_point 1] None k))"
  using partial_update_equals_full_rebuild [of 0 1 "[ex_point 0, ex_point 1]" "[ex_point 7]"
      "ex_data [ex_point 0, ex_point 1]" "ex_data [ex_point 7, ex_point 1]"
      "DataChangedReason ''init''" initializeState]
  by (simp add: ex_state_def ex_range_def ex_data_def isBinary_def)

subsection \<open>C2: the choice of the columnar path\<close>

text \<open>
  C2: on an update with changed data, the \<open>binary\<close> flag is set exactly when the data
  has the three keys \<open>points\<close>, \<open>lines\<close> and \<open>polygons\<close>. With them the only helper
  called is \<open>createLayerPropsFromBinary\<close>, the buckets and their reports stay as they
  were, and a function accessor gets the columnar wrapper instead of going to the parent
  class. Without one of them \<open>getGeojsonFeatures\<close> is called,
  \<open>createLayerPropsFromBinary\<close> is not, and every accessor goes to the parent class.
\<close>

theorem columnar_path_selected_by_three_keys:
  assumes "truthy dc"
  shows "binary (fst (updateState st data dc)) =
           (''points'' \<in> set (keys data) \<and> ''lines'' \<in> set (keys data) \<and>
            ''polygons'' \<in> set (keys data)) \<and>
    (''points'' \<in> set (keys data) \<and> ''lines'' \<in> set (keys data) \<and>
     ''polygons'' \<in> set (keys data) \<longrightarrow>
       snd (updateState st data dc) = [Call_createLayerPropsFromBinary] \<and>
       layerProps (fst (updateState st data dc)) = LayerPropsFromBinary data \<and>
       features (fst (updateState st data dc)) = features st \<and>
       featuresDiff (fst (updateState st data dc)) = featuresDiff st \<and>
       (\<forall>f. \<exists>w. getSubLayerAccessor b2f (fst (updateState st data dc)) (Function f) =
                BinaryWrapper w)) \<and>
    (\<not> (''points'' \<in> set (keys data) \<and> ''lines'' \<in> set (keys data) \<and>
        ''polygons'' \<in> set (keys data)) \<longrightarrow>
       Call_getGeojsonFeatures \<in> set (snd (updateState st data dc)) \<and>
       Call_createLayerPropsFromBinary \<notin> set (snd (updateState st data dc)) \<and>
       (\<forall>acc. getSubLayerAccessor b2f (fst (updateState st data dc)) acc = SuperAccessor acc))"
proof (cases "isBinary data")
  case True
  then show ?thesis
    using assms
    by (auto simp: updateState_def updateStateBinary_def isBinary_def getSubLayerAccessor_def)
next
  case False
  have b: "binary (fst (updateState st data dc)) = False"
    using assms False by (simp add: updateState_def updateStateJSON_def Let_def case_prod_beta)
  have c: "snd (updateState st data dc) = updateStateJSON_calls (features st) dc"
    using assms False by (simp add: updateState_def updateStateJSON_def Let_def case_prod_beta)
  have n: "\<not> (''points'' \<in> set (keys data) \<and> ''lines'' \<in> set (keys data) \<and>
        ''polygons'' \<in> set (keys data))"
    using False by (auto simp: isBinary_def)
  show ?thesis
    using n b c updateStateJSON_calls_props [of "features st" dc]
    by (auto simp: getSubLayerAccessor_object_path)
qed

text \<open>
  C2 at two concrete inputs: data with the three keys, and an array of features.
\<close>

theorem columnar_path_selected_by_three_keys_witness:
  "binary (fst (updateState initializeState ex_binary_data (DataChangedReason ''init''))) \<and>
   snd (updateState initializeState ex_binary_data (DataChangedReason ''init'')) =
     [Call_createLayerPropsFromBinary] \<and>
   \<not> binary (fst (updateState initializeState (ex_data [ex_point 0])
                    (DataChangedReason ''init''))) \<and>
   Call_getGeojsonFeatures \<in>
     set (snd (updateState initializeState (ex_data [ex_point 0]) (DataChangedReason ''init'')))"
proof -
  have t: "truthy (DataChangedReason ''init'')" by simp
  note a = columnar_path_selected_by_three_keys [OF t, where st = initializeState
      and data = ex_binary_data and b2f = "\<lambda>(d :: unit) (i :: int). ()"]
  note b = columnar_path_selected_by_three_keys [OF t, where st = initializeState
      and data = "ex_data [ex_point 0]" and b2f = "\<lambda>(d :: unit) (i :: int). ()"]
  have ka: "''points'' \<in> set (keys ex_binary_data) \<and> ''lines'' \<in> set (keys ex_binary_data) \<and>
      ''polygons'' \<in> set (keys ex_binary_data)"
    by (simp add: ex_binary_data_def)
  have kb: "\<not> (''points'' \<in> set (keys (ex_data [ex_point 0])) \<and>
      ''lines'' \<in> set (keys (ex_data [ex_point 0])) \<and>
      ''polygons'' \<in> set (keys (ex_data [ex_point 0])))"
    by (simp add: ex_data_def)
  show ?thesis
    using a b ka kb by blast
qed

subsection \<open>C3: change ranges in list order\<close>

text \<open>
  C3: for a bucket kind of the previous state, an update with no range keeps the bucket
  and gives it an empty report. After the ranges \<open>rs\<close> the report has one entry per
  range, and a further range \<open>r\<close> is spliced into the bucket as the ranges \<open>rs\<close> left
  it, adding exactly one entry at the end of the report; without records of \<open>r\<close> for the
  bucket the entry is of length zero.
\<close>

theorem ranges_applied_in_order:
  assumes nb: "\<not> isBinary data" and k: "features st k = Some bucket"
  shows "features (fst (updateState st data (DataChangedRanges []))) k = Some bucket \<and>
    featuresDiff (fst (updateState st data (DataChangedRanges []))) k = Some [] \<and>
    (\<exists>b ds.
       features (fst (updateState st data (DataChangedRanges rs))) k = Some b \<and>
       featuresDiff (fst (updateState st data (DataChangedRanges rs))) k = Some ds \<and>
       length ds = length rs \<and>
       features (fst (updateState st data (DataChangedRanges (rs @ [r])))) k =
         Some (fst (replaceInRange b r
           (separateGeojsonFeatures (getGeojsonFeatures (geojson data)) (Some r) k))) \<and>
       featuresDiff (fst (updateState st data (DataChangedRanges (rs @ [r])))) k =
         Some (ds @ [snd (replaceInRange b r
           (separateGeojsonFeatures (getGeojsonFeatures (geojson data)) (Some r) k))]) \<and>
       (separateGeojsonFeatures (getGeojsonFeatures (geojson data)) (Some r) k = [] \<longrightarrow>
        endRow (snd (replaceInRange b r [])) = startRow (snd (replaceInRange b r []))))"
proof -
  let ?fs = "getGeojsonFeatures (geojson data)"
  obtain b ds where bd: "applyRanges ?fs (features st) rs k = Some (b, ds)"
    and len: "length ds = length rs"
    using applyRanges_Some [of "features st" k bucket ?fs rs] k by blast
  have base: "applyRanges ?fs (features st) [] k = Some (bucket, [])"
    using k by (simp add: applyRanges_def)
  have snoc: "applyRanges ?fs (features st) (rs @ [r]) k =
      Some (fst (replaceInRange b r (separateGeojsonFeatures ?fs (Some r) k)),
            ds @ [snd (replaceInRange b r (separateGeojsonFeatures ?fs (Some r) k))])"
    using bd by (simp add: applyRanges_snoc applyRange_def Let_def case_prod_beta)
  have zero: "endRow (snd (replaceInRange b r [])) = startRow (snd (replaceInRange b r []))"
    by (simp add: replaceInRange_entry)
  show ?thesis
    using bd len base snoc zero
    by (simp add: updateState_ranges_features [OF nb] updateState_ranges_featuresDiff [OF nb])
qed

text \<open>
  C3 at a concrete input: the line bucket of \<open>[p0, p1]\<close> is empty, and the range
  \<open>[0, 1)\<close> has no record for it.
\<close>

theorem ranges_applied_in_order_witness:
  "features ex_state Lines = Some [] \<and>
   separateGeojsonFeatures (getGeojsonFeatures (geojson (ex_data [ex_point 7, ex_point 1])))
     (Some ex_range) Lines = [] \<and>
   featuresDiff (fst (updateState ex_state (ex_data [ex_point 7, ex_point 1])
                        (DataChangedRanges ([] @ [ex_range])))) Lines =
     Some [\<lparr>startRow = 0, endRow = 0\<rparr>]"
proof -
  have l: "features ex_state Lines = Some []"
    by (simp add: ex_state_def updateState_def updateStateJSON_def isBinary_def ex_data_def
        ex_point_def separateGeojsonFeatures_def normalize_def in_range_def Let_def
        enumerate_eq_zip)
  have nb: "\<not> isBinary (ex_data [ex_point 7, ex_point 1])"
    by (simp add: isBinary_def ex_data_def)
  have s: "separateGeojsonFeatures
      (getGeojsonFeatures (geojson (ex_data [ex_point 7, ex_point 1]))) (Some ex_range) Lines = []"
    by (simp add: ex_data_def ex_point_def ex_range_def separateGeojsonFeatures_def
        normalize_def in_range_def enumerate_eq_zip)
  show ?thesis
    using ranges_applied_in_order [OF nb l, of "[]" ex_range] l s
    by (auto simp: replaceInRange_def)
qed

subsection \<open>C4: the array objects of the buckets\<close>

text \<open>
  C4 as stated fails: after a full rebuild of \<open>[p0, p1]\<close> the point bucket is the array
  at address 0; after the partial update with the range \<open>[0, 1)\<close> it is the array at
  address 3, another array object.
\<close>

theorem partial_update_bucket_not_same_array:
  "features_ref ex_store Points = Some 0 \<and>
   features_ref (updateStateJSON_store ex_store (ex_data [ex_point 7, ex_point 1])
      (DataChangedRanges [ex_range])) Points = Some 3"
  by (simp add: ex_store_def ex_range_def updateStateJSON_store_def initial_store_def
      keys_of_def sliceBucket_def applyRange_store_def spliceBucket_def Let_def case_prod_beta)

text \<open>
  C4 (amended): on a change given by ranges, each bucket of the new state is a new array
  object, the \<^verbatim>\<open>slice()\<close> copy of the previous bucket into which the ranges are
  spliced: its address is none of the old store, the array object that the state held
  before keeps its contents, and the new array holds the previous bucket with the ranges
  applied.
\<close>

theorem partial_update_patches_a_copy:
  assumes valid: "\<forall>k p. features_ref st k = Some p \<longrightarrow> p < length (heap st)"
    and k: "features_ref st k = Some p"
  shows "\<exists>p'. features_ref (updateStateJSON_store st data (DataChangedRanges rs)) k = Some p' \<and>
           length (heap st) \<le> p' \<and>
           p' < length (heap (updateStateJSON_store st data (DataChangedRanges rs))) \<and>
           heap (updateStateJSON_store st data (DataChangedRanges rs)) ! p = heap st ! p \<and>
           Some (heap (updateStateJSON_store st data (DataChangedRanges rs)) ! p') =
             map_option fst
               (applyRanges (getGeojsonFeatures (geojson data))
                  (\<lambda>key. map_option (\<lambda>q. heap st ! q) (features_ref st key)) rs k)"
proof -
  let ?old = "features_ref st" and ?n = "length (heap st)"
  let ?ks = "keys_of ?old" and ?fs = "getGeojsonFeatures (geojson data)"
  let ?st' = "updateStateJSON_store st data (DataChangedRanges rs)"
  obtain h1 acc1 where s1: "foldl (sliceBucket ?old) (heap st, Map.empty) ?ks = (h1, acc1)"
    by (cases "foldl (sliceBucket ?old) (heap st, Map.empty) ?ks")
  obtain h2 acc2 where s2: "foldl (applyRange_store ?fs ?ks) (h1, acc1) rs = (h2, acc2)"
    by (cases "foldl (applyRange_store ?fs ?ks) (h1, acc1) rs")
  have st': "heap ?st' = h2" "features_ref ?st' = (\<lambda>key. map_option fst (acc2 key))"
    by (simp_all add: updateStateJSON_store_def Let_def s1 s2)
  have f0: "fresh_refs ?n (heap st) Map.empty"
    by (simp add: fresh_refs_def)
  have sl: "fresh_refs ?n h1 acc1 \<and> take ?n h1 = heap st \<and>
      (\<forall>k. map_option (\<lambda>(p, d). (h1 ! p, d)) (acc1 k) =
           (if k \<in> set ?ks then map_option (\<lambda>p. (heap st ! p, [])) (?old k)
            else map_option (\<lambda>(p, d). (heap st ! p, d)) (Map.empty k))) \<and>
      (\<forall>k. acc1 k \<noteq> None \<longrightarrow> Map.empty k \<noteq> None \<or> (k \<in> set ?ks \<and> ?old k \<noteq> None))"
    using foldl_sliceBucket [OF f0 _ keys_of_distinct _ _ s1] valid by simp
  have f1: "fresh_refs ?n h1 acc1" and t1: "take ?n h1 = heap st"
    and dom1: "\<forall>k. acc1 k \<noteq> None \<longrightarrow> k \<in> set ?ks"
    using sl by simp_all
  have r1: "read_patched h1 acc1 =
      (\<lambda>key. map_option (\<lambda>data. (data, [])) (map_option (\<lambda>q. heap st ! q) (?old key)))"
  proof
    fix key
    show "read_patched h1 acc1 key =
        map_option (\<lambda>data. (data, [])) (map_option (\<lambda>q. heap st ! q) (?old key))"
      using sl by (cases "?old key") (simp_all add: read_patched_def keys_of_set)
  qed
  note ap = foldl_applyRange_store [OF f1 keys_of_distinct dom1 s2]
  have f2: "fresh_refs ?n h2 acc2" and t2: "take ?n h2 = heap st"
    and r2: "read_patched h2 acc2 =
       applyRanges ?fs (\<lambda>key. map_option (\<lambda>q. heap st ! q) (?old key)) rs"
    using ap t1 r1 by (simp_all add: applyRanges_def)
  obtain b ds where bd: "applyRanges ?fs (\<lambda>key. map_option (\<lambda>q. heap st ! q) (?old key)) rs k
      = Some (b, ds)"
    using applyRanges_Some [of "\<lambda>key. map_option (\<lambda>q. heap st ! q) (?old key)" k "heap st ! p"
        ?fs rs] k by auto
  then have "read_patched h2 acc2 k = Some (b, ds)" using r2 by simp
  then obtain p' where p': "acc2 k = Some (p', ds)" and b: "h2 ! p' = b"
    by (auto simp: read_patched_def)
  have bounds: "?n \<le> p'" "p' < length h2"
    using f2 p' by (auto simp: fresh_refs_def)
  have "p < ?n" using valid k by simp
  then have "h2 ! p = heap st ! p"
    using t2 by (metis nth_take)
  then show ?thesis
    using p' b bounds bd by (simp add: st')
qed

text \<open>
  The amended C4 at a concrete input: the store after a full rebuild of \<open>[p0, p1]\<close>,
  the point bucket at address 0, the range \<open>[0, 1)\<close>.
\<close>

theorem partial_update_patches_a_copy_witness:
  "\<exists>p'. features_ref (updateStateJSON_store ex_store (ex_data [ex_point 7, ex_point 1])
            (DataChangedRanges [ex_range])) Points = Some p' \<and>
         length (heap ex_store) \<le> p' \<and>
         heap (updateStateJSON_store ex_store (ex_data [ex_point 7, ex_point 1])
            (DataChangedRanges [ex_range])) ! 0 = heap ex_store ! 0"
proof -
  have v: "\<forall>k p. features_ref ex_store k = Some p \<longrightarrow> p < length (heap ex_store)"
    by (auto simp: ex_store_def updateStateJSON_store_def initial_store_def Let_def
        split: if_splits)
  have k: "features_ref ex_store Points = Some 0"
    by (simp add: ex_store_def updateStateJSON_store_def initial_store_def Let_def)
  show ?thesis
    using partial_update_patches_a_copy [OF v k, of "ex_data [ex_point 7, ex_point 1]"
        "[ex_range]"]
    by blast
qed

subsection \<open>C5: the index of a pick on the columnar path\<close>

text \<open>
  C5: when the layer is on the columnar path, the id of the source sub-layer starts with
  the id of the points-text sub-layer and the picked index \<open>i\<close> is not negative, the
  returned index is \<^verbatim>\<open>points.globalFeatureIds.value[i]\<close>, the element at \<open>i\<close> when
  \<open>i\<close> is inside the array. For every other pick the index is returned unchanged.
\<close>

theorem picking_text_index_lookup:
  "(binary st \<and> prefix (this_id @ ''-points-text'') (sourceLayer_id info) \<and>
    index info = Some i \<and> 0 \<le> i \<longrightarrow>
      index (getPickingInfo this_id st data info) =
        typed_array_get (points_globalFeatureIds data) i \<and>
      (nat i < length (points_globalFeatureIds data) \<longrightarrow>
         index (getPickingInfo this_id st data info) =
           Some (points_globalFeatureIds data ! nat i))) \<and>
   (\<not> (binary st \<and> prefix (this_id @ ''-points-text'') (sourceLayer_id info) \<and>
        (\<exists>j. index info = Some j \<and> 0 \<le> j)) \<longrightarrow>
      index (getPickingInfo this_id st data info) = index info)"
  by (auto simp: getPickingInfo_def Let_def nonneg_def typed_array_get_def split: option.splits)

text \<open>
  C5 at concrete inputs: character 1 of the text sub-layer maps to feature 9, a pick of
  the circle sub-layer and a pick without object keep their index.
\<close>

theorem picking_text_index_lookup_witness:
  "index (getPickingInfo ''geo'' ex_binary_state ex_binary_data
            (ex_info ''geo-points-text-characters'' 1)) = Some 9 \<and>
   index (getPickingInfo ''geo'' ex_binary_state ex_binary_data
            (ex_info ''geo-points-circle'' 1)) = Some 1 \<and>
   index (getPickingInfo ''geo'' ex_binary_state ex_binary_data
            (ex_info ''geo-points-text-characters'' (- 1))) = Some (- 1)"
proof -
  have b: "binary ex_binary_state"
    by (simp add: ex_binary_state_def updateState_def updateStateBinary_def isBinary_def
        ex_binary_data_def)
  show ?thesis
    using b
      picking_text_index_lookup [of ex_binary_state "''geo''"
        "ex_info ''geo-points-text-characters'' 1" 1 ex_binary_data]
      picking_text_index_lookup [of ex_binary_state "''geo''"
        "ex_info ''geo-points-circle'' 1" 1 ex_binary_data]
      picking_text_index_lookup [of ex_binary_state "''geo''"
        "ex_info ''geo-points-text-characters'' (- 1)" "- 1" ex_binary_data]
    by (simp add: ex_info_def ex_binary_data_def typed_array_get_def)
qed

subsection \<open>C6: an index outside the picked bucket\<close>

text \<open>
  C6 as stated fails: on the columnar path the point bucket has two primitives, a pick
  of the circle sub-layer comes with the index 7, and the index 7 is what
  \<open>getPickingInfo\<close> returns.
\<close>

theorem picking_stale_index_returned:
  "int (length (points_globalFeatureIds ex_binary_data)) \<le> 7 \<and>
   index (getPickingInfo ''geo'' ex_binary_state ex_binary_data
            (ex_info ''geo-points-circle'' 7)) = Some 7"
  by (simp add: getPickingInfo_def ex_info_def ex_binary_data_def nonneg_def Let_def)

text \<open>
  C6 (amended): \<open>getPickingInfo\<close> checks no index against a bucket. On the columnar
  path, for a source sub-layer whose id starts with the id of the points-text sub-layer,
  an index at or beyond the length of \<^verbatim>\<open>points.globalFeatureIds.value\<close> reads
  \<^verbatim>\<open>undefined\<close>, which is the returned index. On the object path and for the other
  sub-layers the index is returned as it came, inside the bucket or not.
\<close>

theorem picking_out_of_range_index:
  "(binary st \<and> prefix (this_id @ ''-points-text'') (sourceLayer_id info) \<and>
    index info = Some i \<and> int (length (points_globalFeatureIds data)) \<le> i \<longrightarrow>
      index (getPickingInfo this_id st data info) = None) \<and>
   (\<not> (binary st \<and> prefix (this_id @ ''-points-text'') (sourceLayer_id info)) \<longrightarrow>
      index (getPickingInfo this_id st data info) = index info)"
  by (auto simp: getPickingInfo_def Let_def nonneg_def typed_array_get_def split: option.splits)

text \<open>
  The amended C6 at concrete inputs: the index 7 in the text sub-layer over two points,
  and the same index on the object path.
\<close>

theorem picking_out_of_range_index_witness:
  "index (getPickingInfo ''geo'' ex_binary_state ex_binary_data
            (ex_info ''geo-points-text-characters'' 7)) = None \<and>
   index (getPickingInfo ''geo'' ex_state (ex_data [ex_point 0, ex_point 1])
            (ex_info ''geo-points-text-characters'' 7)) = Some 7"
proof -
  have b: "binary ex_binary_state"
    by (simp add: ex_binary_state_def updateState_def updateStateBinary_def isBinary_def
        ex_binary_data_def)
  have n: "\<not> binary ex_state"
    by (simp add: ex_state_def updateState_def updateStateJSON_def isBinary_def ex_data_def
        initializeState_def Let_def)
  show ?thesis
    using b n
      picking_out_of_range_index [of ex_binary_state "''geo''"
        "ex_info ''geo-points-text-characters'' 7" 7 ex_binary_data]
      picking_out_of_range_index [of ex_state "''geo''"
        "ex_info ''geo-points-text-characters'' 7" 7 "ex_data [ex_point 0, ex_point 1]"]
    by (simp add: ex_info_def ex_binary_data_def)
qed

subsection \<open>C7: accessors of the sub-layers\<close>

text \<open>
  C7: on the columnar path a function accessor \<open>f\<close> becomes a wrapper; each invocation
  of the wrapper calls \<open>binaryToFeatureForAccesor\<close> once, on the data and the index of
  the info of that invocation, and returns \<open>f\<close> of the feature it built, so that the
  invocations of a run make one call each, in order. A constant accessor, and every
  accessor on the object path, goes unchanged to the parent class.
\<close>

theorem binary_accessor_wrapper:
  "(binary st \<longrightarrow>
      (\<exists>w. getSubLayerAccessor b2f st (Function f) = BinaryWrapper w \<and>
           (\<forall>object info. w object info =
              (f (b2f (info_data info) (info_index info)) info,
               [(info_data info, info_index info)])) \<and>
           (\<forall>invs. invokeAll w invs =
              (map (\<lambda>(object, info). f (b2f (info_data info) (info_index info)) info) invs,
               map (\<lambda>(object, info). (info_data info, info_index info)) invs)))) \<and>
   getSubLayerAccessor b2f st (Constant c) = SuperAccessor (Constant c) \<and>
   (\<not> binary st \<longrightarrow> getSubLayerAccessor b2f st acc = SuperAccessor acc)"
proof -
  have 1: "getSubLayerAccessor b2f st acc = SuperAccessor acc" if "\<not> binary st"
    using that by (rule getSubLayerAccessor_object_path)
  have 2: "getSubLayerAccessor b2f st (Constant c) = SuperAccessor (Constant c)"
    by (simp add: getSubLayerAccessor_def)
  have 3: "\<exists>w. getSubLayerAccessor b2f st (Function f) = BinaryWrapper w \<and>
           (\<forall>object info. w object info =
              (f (b2f (info_data info) (info_index info)) info,
               [(info_data info, info_index info)])) \<and>
           (\<forall>invs. invokeAll w invs =
              (map (\<lambda>(object, info). f (b2f (info_data info) (info_index info)) info) invs,
               map (\<lambda>(object, info). (info_data info, info_index info)) invs))"
    if "binary st"
    using that by (simp add: getSubLayerAccessor_def invokeAll_wrapper)
  show ?thesis
    using 1 2 3 by blast
qed

text \<open>
  C7 at a concrete input: on the columnar path the wrapper of an accessor, run on the
  index 4 and on the index 4 again, builds the feature twice.
\<close>

theorem binary_accessor_wrapper_witness:
  "binary ex_binary_state \<and>
   (\<exists>w. getSubLayerAccessor (\<lambda>d i. i + 100) ex_binary_state
           (Function (\<lambda>x (info :: string accessor_info). 2 * x)) =
         (BinaryWrapper w :: (int, unit, string, int) sub_layer_accessor) \<and>
        invokeAll w [((), ex_accessor_info 4), ((), ex_accessor_info 4)] =
          ([208, 208], [(''points'', 4), (''points'', 4)]))"
proof -
  have b: "binary ex_binary_state"
    by (simp add: ex_binary_state_def updateState_def updateStateBinary_def isBinary_def
        ex_binary_data_def)
  have "binary ex_binary_state \<longrightarrow>
      (\<exists>w. getSubLayerAccessor (\<lambda>d i. i + 100) ex_binary_state
              (Function (\<lambda>x (info :: string accessor_info). 2 * x)) =
            (BinaryWrapper w :: (int, unit, string, int) sub_layer_accessor) \<and>
           (\<forall>object info. w object info =
              (2 * (info_index info + 100), [(info_data info, info_index info)])) \<and>
           (\<forall>invs. invokeAll w invs =
              (map (\<lambda>(object, info). 2 * (info_index info + 100)) invs,
               map (\<lambda>(object, info). (info_data info, info_index info)) invs)))"
    by (rule conjunct1 [OF binary_accessor_wrapper [of ex_binary_state "\<lambda>d i. i + 100"
          "\<lambda>x (info :: string accessor_info). 2 * x"]])
  then obtain w :: "unit \<Rightarrow> string accessor_info \<Rightarrow> int \<times> (string \<times> int) list"
    where w: "getSubLayerAccessor (\<lambda>d i. i + 100) ex_binary_state
                (Function (\<lambda>x (info :: string accessor_info). 2 * x)) = BinaryWrapper w"
      and inv: "\<forall>invs. invokeAll w invs =
              (map (\<lambda>(object, info). 2 * (info_index info + 100)) invs,
               map (\<lambda>(object, info). (info_data info, info_index info)) invs)"
    using b by blast
  have "invokeAll w [((), ex_accessor_info 4), ((), ex_accessor_info 4)] =
      (map (\<lambda>(object, info). 2 * (info_index info + 100))
         [((), ex_accessor_info 4), ((), ex_accessor_info 4)],
       map (\<lambda>(object, info). (info_data info, info_index info))
         [((), ex_accessor_info 4), ((), ex_accessor_info 4)])"
    using inv by (rule spec)
  also have "\<dots> = ([208, 208], [(''points'', 4), (''points'', 4)])"
    by (simp add: ex_accessor_info_def)
  finally show ?thesis using b w by blast
qed

subsection \<open>C8: the feature type of a pick\<close>

text \<open>
  C8 is not what the code does for a pick of the line strings. The id of their
  sub-layer is the id of the layer, a hyphen and \<open>linestrings\<close>: of the three names
  prefixed by the id of the layer, \<open>linestrings\<close> is the first that starts it, so C8
  asks for the feature type \<open>linestrings\<close>. The code tests each name with a hyphen
  after it, which this id does not have, and leaves the feature type \<^verbatim>\<open>undefined\<close>.
  The sub-layers of the points and of the polygons have ids that go on after the name,
  and their picks get \<open>points\<close> and \<open>polygons\<close>.
\<close>

theorem picking_featureType_line_sub_layer:
  "\<not> prefix (''geo'' @ ''-'' @ ''points'') (''geo'' @ ''-'' @ lineStringsLayerId) \<and>
   prefix (''geo'' @ ''-'' @ ''linestrings'') (''geo'' @ ''-'' @ lineStringsLayerId) \<and>
   featureType (getPickingInfo ''geo'' ex_state (ex_data [])
                  (ex_info (''geo'' @ ''-'' @ lineStringsLayerId) 0)) = None \<and>
   featureType (getPickingInfo ''geo'' ex_state (ex_data [])
                  (ex_info ''geo-points-circle'' 0)) = Some ''points'' \<and>
   featureType (getPickingInfo ''geo'' ex_state (ex_data [])
                  (ex_info ''geo-polygons-stroke'' 0)) = Some ''polygons''"
  by (simp add: getPickingInfo_def Let_def FEATURE_TYPES_def ex_info_def
      lineStringsLayerId_def)

subsection \<open>C9: an update without changed data\<close>

text \<open>
  C9: when \<^verbatim>\<open>changeFlags.dataChanged\<close> is falsy, \<open>updateState\<close> returns the state
  it was given, with \<open>layerProps\<close>, \<open>features\<close>, \<open>featuresDiff\<close> and \<open>binary\<close> as they
  were, and calls no helper.
\<close>

theorem updateState_without_data_change:
  "\<not> truthy dc \<Longrightarrow> updateState st data dc = (st, [])"
  by (simp add: updateState_def)

text \<open>C9 at a concrete input: \<^verbatim>\<open>dataChanged\<close> is \<^verbatim>\<open>false\<close>.\<close>

theorem updateState_without_data_change_witness:
  "\<not> truthy DataUnchanged \<and>
   updateState ex_state ex_binary_data DataUnchanged = (ex_state, [])"
proof -
  have h: "\<not> truthy DataUnchanged" by simp
  show ?thesis
    using h updateState_without_data_change [OF h, of ex_state ex_binary_data] by simp
qed

subsection \<open>C10: one point sub-layer per token\<close>

text \<open>
  C10: let the keys of \<open>POINT_LAYER\<close> be \<open>circle\<close>, \<open>icon\<close> and \<open>text\<close>. When
  \<open>_renderPointLayers\<close> returns, the ids of its sub-layers are distinct, each is
  \<open>points-\<close> followed by a token of \<open>pointType\<close> that is one of the three keys, and
  there are at most as many sub-layers as distinct such tokens. The loop gives the same
  result, layers or exception, with and without the types that are none of the three
  keys: such a type adds no sub-layer and no exception.
\<close>

theorem point_layers_per_token:
  assumes known: "dom (POINT_LAYER env) = {''circle'', ''icon'', ''text''}"
  shows "(renderPointLayers env pointType highlightedObjectIndex bin points = Inr layers \<longrightarrow>
      distinct (map sub_id layers) \<and>
      (\<forall>layer\<in>set layers.
         \<exists>t\<in>set (split_on CHR ''+'' pointType) \<inter> {''circle'', ''icon'', ''text''}.
           sub_id layer = ''points-'' @ t) \<and>
      length layers \<le>
        card (set (split_on CHR ''+'' pointType) \<inter> {''circle'', ''icon'', ''text''})) \<and>
    renderTypes env bin points h types acc =
      renderTypes env bin points h
        (filter (\<lambda>t. t \<in> {''circle'', ''icon'', ''text''}) types) acc"
proof -
  let ?tokens = "split_on CHR ''+'' pointType"
  let ?known = "{''circle'', ''icon'', ''text''}"
  have mem: "(POINT_LAYER env t \<noteq> None) = (t \<in> ?known)" for t
    using known by (metis domIff)
  have 2: "renderTypes env bin points h types acc =
      renderTypes env bin points h (filter (\<lambda>t. t \<in> ?known) types) acc"
    using renderTypes_filter [of env bin points h types acc] by (simp only: mem)
  have 1: "distinct (map sub_id layers) \<and>
      (\<forall>layer\<in>set layers. \<exists>t\<in>set ?tokens \<inter> ?known. sub_id layer = ''points-'' @ t) \<and>
      length layers \<le> card (set ?tokens \<inter> ?known)"
    if r: "renderPointLayers env pointType highlightedObjectIndex bin points = Inr layers"
  proof -
    obtain h' where "renderTypes env bin points h' (new_Set ?tokens) [] = Inr layers"
      using r by (auto simp: renderPointLayers_def split: sum.splits)
    then obtain ts where ids: "map sub_id layers = map (\<lambda>t. ''points-'' @ t) ts"
      and d: "distinct ts" and sub: "set ts \<subseteq> set ?tokens \<inter> ?known"
      using renderTypes_ids [OF _ new_Set_distinct, of env bin points h' ?tokens "[]" layers]
        known by (auto simp: new_Set_set)
    have "distinct (map (\<lambda>t. ''points-'' @ t) ts)"
      using d by (simp add: distinct_map inj_on_def)
    then have a: "distinct (map sub_id layers)" using ids by simp
    have b: "\<exists>t\<in>set ?tokens \<inter> ?known. sub_id layer = ''points-'' @ t" if "layer \<in> set layers"
      for layer
    proof -
      have "sub_id layer \<in> set (map sub_id layers)" using that by simp
      then have "sub_id layer \<in> (\<lambda>t. ''points-'' @ t) ` set ts" using ids by simp
      then show ?thesis using sub by auto
    qed
    have "length layers = length ts"
      using ids by (metis length_map)
    also have "\<dots> = card (set ts)" using d by (simp add: distinct_card)
    also have "\<dots> \<le> card (set ?tokens \<inter> ?known)"
      using sub by (intro card_mono) auto
    finally have c: "length layers \<le> card (set ?tokens \<inter> ?known)" .
    show ?thesis using a b c by blast
  qed
  show ?thesis using 1 2 by blast
qed

text \<open>
  C10 at a concrete input: \<open>circle+circle+foo\<close> gives the one sub-layer
  \<open>points-circle\<close>.
\<close>

theorem point_layers_per_token_witness:
  "dom (POINT_LAYER ex_env) = {''circle'', ''icon'', ''text''} \<and>
   map sub_id (case renderPointLayers ex_env ''circle+circle+foo'' None False (Some (RowData []))
               of Inl e \<Rightarrow> [] | Inr layers \<Rightarrow> layers) = [''points-circle''] \<and>
   renderTypes ex_env False (Some (RowData [])) None [''circle'', ''foo''] [] =
     renderTypes ex_env False (Some (RowData [])) None [''circle''] []"
proof -
  have d: "dom (POINT_LAYER ex_env) = {''circle'', ''icon'', ''text''}"
    by (auto simp: ex_env_def split: if_splits)
  have r: "map sub_id (case renderPointLayers ex_env ''circle+circle+foo'' None False
                 (Some (RowData [])) of Inl e \<Rightarrow> [] | Inr layers \<Rightarrow> layers) =
      [''points-circle'']"
    by (simp add: renderPointLayers_def remapHighlightedObjectIndex_def new_Set_def
        set_add_def renderPointLayer_def ex_env_def Let_def)
  show ?thesis
    using d r point_layers_per_token [OF d, of "''circle+circle+foo''" None False
        "Some (RowData [])" "[]" None "[''circle'', ''foo'']" "[]"]
    by simp
qed

end
